theory Spec2Isabelle
  imports Complex_Main "HOL-Library.Word"
begin

unbundle bit_operations_syntax

section \<open>Strings, bytes and exceptions\<close>

text \<open>
  A Python \<^verbatim>\<open>str\<close> is a sequence of Unicode code points, so it is a list of naturals
  here; \<^verbatim>\<open>bytes\<close> is a list of 8-bit words. \<open>str\<close> turns an ASCII literal into a
  Python string.
\<close>

type_synonym pystr = "nat list"
type_synonym byte = "8 word"
type_synonym path = "nat list"

definition str :: "string \<Rightarrow> pystr" where
  "str cs = map of_char cs"

definition ascii :: "string \<Rightarrow> byte list" where
  "ascii cs = map of_char cs"

text \<open>
  The exceptions that the library calls of \<^verbatim>\<open>parse_xml.py\<close> raise. All but
  \<^verbatim>\<open>SystemExit\<close> derive from \<^verbatim>\<open>Exception\<close> (\<^verbatim>\<open>binascii.Error\<close> and
  \<^verbatim>\<open>UnicodeDecodeError\<close> derive from \<^verbatim>\<open>ValueError\<close>).
\<close>

datatype py_exn = ValueError | BinasciiError | UnicodeDecodeError | OSError | SystemExit int

fun is_Exception :: "py_exn \<Rightarrow> bool" where
  "is_Exception (SystemExit n) = False"
| "is_Exception e = True"

definition bind_exn :: "py_exn + 'a \<Rightarrow> ('a \<Rightarrow> py_exn + 'b) \<Rightarrow> py_exn + 'b" where
  "bind_exn m f = (case m of Inl e \<Rightarrow> Inl e | Inr x \<Rightarrow> f x)"

text \<open>
  \<^verbatim>\<open>str.isspace\<close> on one code point, which is also what \<^verbatim>\<open>\s\<close> matches in a
  \<^verbatim>\<open>str\<close> pattern of \<^verbatim>\<open>re\<close>: both read the same Unicode table of CPython.
\<close>

definition isspace :: "nat \<Rightarrow> bool" where
  "isspace c \<longleftrightarrow>
     (9 \<le> c \<and> c \<le> 13) \<or> (28 \<le> c \<and> c \<le> 32) \<or> c = 0x85 \<or> c = 0xA0 \<or> c = 0x1680 \<or>
     (0x2000 \<le> c \<and> c \<le> 0x200A) \<or> c = 0x2028 \<or> c = 0x2029 \<or> c = 0x202F \<or>
     c = 0x205F \<or> c = 0x3000"

text \<open>\<^verbatim>\<open>s.strip()\<close>: leading and trailing whitespace removed.\<close>

definition strip :: "pystr \<Rightarrow> pystr" where
  "strip s = rev (dropWhile isspace (rev (dropWhile isspace s)))"

text \<open>\<^verbatim>\<open>s.replace(c, "")\<close> for a one-character \<^verbatim>\<open>c\<close>.\<close>

definition remove_char :: "nat \<Rightarrow> pystr \<Rightarrow> pystr" where
  "remove_char c s = filter (\<lambda>x. x \<noteq> c) s"

text \<open>
  \<^verbatim>\<open>s.lower()\<close> on the ASCII letters. The script only compares the result with
  \<^verbatim>\<open>'base64'\<close>, and the only code points whose lowercase is one of the letters
  \<^verbatim>\<open>b, a, s, e\<close> are those letters and their ASCII capitals.
\<close>

definition lower :: "pystr \<Rightarrow> pystr" where
  "lower s = map (\<lambda>c. if 0x41 \<le> c \<and> c \<le> 0x5A then c + 32 else c) s"

text \<open>The character class \<^verbatim>\<open>[A-Za-z0-9+/=]\<close>.\<close>

definition is_b64char :: "nat \<Rightarrow> bool" where
  "is_b64char c \<longleftrightarrow>
     (0x41 \<le> c \<and> c \<le> 0x5A) \<or> (0x61 \<le> c \<and> c \<le> 0x7A) \<or> (0x30 \<le> c \<and> c \<le> 0x39) \<or>
     c = 0x2B \<or> c = 0x2F \<or> c = 0x3D"

text \<open>\<^verbatim>\<open>re.fullmatch(r'[A-Za-z0-9+/=\s\r\n]+', s)\<close> as a truth value.\<close>

definition fullmatch_b64_ws :: "pystr \<Rightarrow> bool" where
  "fullmatch_b64_ws s \<longleftrightarrow>
     s \<noteq> [] \<and> list_all (\<lambda>c. is_b64char c \<or> isspace c \<or> c = 13 \<or> c = 10) s"

text \<open>\<^verbatim>\<open>re.findall(r'[A-Za-z0-9+/=]', s)\<close>: one match for each character of the class.\<close>

definition findall_b64 :: "pystr \<Rightarrow> pystr" where
  "findall_b64 s = filter is_b64char s"

text \<open>\<^verbatim>\<open>re.sub(r'\s+', '', s)\<close>: every run of whitespace removed.\<close>

definition sub_ws :: "pystr \<Rightarrow> pystr" where
  "sub_ws s = filter (\<lambda>c. \<not> isspace c) s"

section \<open>The Base64 heuristic\<close>

text \<open>
  \<^verbatim>\<open>is_likely_base64\<close>. The quotient is Python's true division of two integers and
  \<^verbatim>\<open>0.9\<close> is the double nearest to 9/10; the comparison of the two doubles agrees with
  the comparison of the exact quotient with 9/10 for every string shorter than \<open>2\<^sup>4\<^sup>9\<close>
  characters, and it is the exact one that is written here.
\<close>

definition is_likely_base64 :: "pystr \<Rightarrow> bool" where
  "is_likely_base64 s0 =
     (let s = strip s0 in
      if s = [] then False
      else if length s < 8 then False
      else if fullmatch_b64_ws s \<and> length (remove_char 13 (remove_char 10 s)) mod 4 = 0
      then (let valid_chars = length (findall_b64 s)
            in real valid_chars / real (max 1 (length s)) > 9 / 10)
      else False)"

section \<open>Strict Base64 decoding\<close>

text \<open>
  \<^verbatim>\<open>base64.b64decode(s, validate=True)\<close> of CPython 3.11: the string is encoded as
  ASCII (\<^verbatim>\<open>ValueError\<close> otherwise) and handed to \<^verbatim>\<open>binascii.a2b_base64\<close> in strict
  mode, whose loop over the input is \<open>a2b_loop\<close>: \<open>quad_pos\<close> counts the characters of
  the current group of four, \<open>leftchar\<close> holds the bits not yet written, \<open>pads\<close> counts
  the \<^verbatim>\<open>=\<close> of the current group.
\<close>

definition table_a2b_base64 :: "byte \<Rightarrow> byte option" where
  "table_a2b_base64 c =
     (if 0x41 \<le> c \<and> c \<le> 0x5A then Some (c - 0x41)
      else if 0x61 \<le> c \<and> c \<le> 0x7A then Some (c - 0x61 + 26)
      else if 0x30 \<le> c \<and> c \<le> 0x39 then Some (c - 0x30 + 52)
      else if c = 0x2B then Some 62
      else if c = 0x2F then Some 63
      else None)"

fun a2b_loop :: "byte list \<Rightarrow> nat \<Rightarrow> byte \<Rightarrow> nat \<Rightarrow> bool \<Rightarrow> byte list \<Rightarrow> py_exn + byte list" where
  "a2b_loop [] quad_pos leftchar pads padding_started out =
     (if quad_pos \<noteq> 0 then Inl BinasciiError else Inr out)"
| "a2b_loop (this_ch # rest) quad_pos leftchar pads padding_started out =
     (if this_ch = 0x3D then
        (if quad_pos \<ge> 2 \<and> quad_pos + (pads + 1) \<ge> 4 then
           (if rest \<noteq> [] then Inl BinasciiError else Inr out)
         else a2b_loop rest quad_pos leftchar (if quad_pos \<ge> 2 then pads + 1 else pads) True out)
      else
        (case table_a2b_base64 this_ch of
           None \<Rightarrow> Inl BinasciiError
         | Some v \<Rightarrow>
             if padding_started then Inl BinasciiError
             else if quad_pos = 0 then a2b_loop rest 1 v 0 padding_started out
             else if quad_pos = 1 then
               a2b_loop rest 2 (v AND 0x0F) 0 padding_started
                 (out @ [push_bit 2 leftchar OR drop_bit 4 v])
             else if quad_pos = 2 then
               a2b_loop rest 3 (v AND 0x03) 0 padding_started
                 (out @ [push_bit 4 leftchar OR drop_bit 2 v])
             else
               a2b_loop rest 0 0 0 padding_started (out @ [push_bit 6 leftchar OR v])))"

definition a2b_base64 :: "byte list \<Rightarrow> py_exn + byte list" where
  "a2b_base64 data =
     (if data \<noteq> [] \<and> hd data = 0x3D then Inl BinasciiError
      else a2b_loop data 0 0 0 False [])"

definition bytes_from_decode_data :: "pystr \<Rightarrow> py_exn + byte list" where
  "bytes_from_decode_data s =
     (if list_all (\<lambda>c. c < 128) s then Inr (map of_nat s) else Inl ValueError)"

definition b64decode :: "pystr \<Rightarrow> py_exn + byte list" where
  "b64decode s = bind_exn (bytes_from_decode_data s) a2b_base64"

section \<open>UTF-8 and hexadecimal\<close>

text \<open>
  \<^verbatim>\<open>b.decode('utf-8')\<close>, the strict decoder: shortest forms only, no surrogates, nothing
  above U+10FFFF, no truncated sequence.
\<close>

definition cont :: "byte \<Rightarrow> bool" where
  "cont b \<longleftrightarrow> 0x80 \<le> b \<and> b \<le> 0xBF"

definition low6 :: "byte \<Rightarrow> nat" where
  "low6 b = unat (b AND 0x3F)"

definition cons_cp :: "nat \<Rightarrow> py_exn + pystr \<Rightarrow> py_exn + pystr" where
  "cons_cp c r = (case r of Inl e \<Rightarrow> Inl e | Inr t \<Rightarrow> Inr (c # t))"

fun utf8_decode :: "byte list \<Rightarrow> py_exn + pystr" where
  "utf8_decode [] = Inr []"
| "utf8_decode (b0 # bs) =
     (if b0 < 0x80 then cons_cp (unat b0) (utf8_decode bs)
      else if 0xC2 \<le> b0 \<and> b0 \<le> 0xDF then
        (case bs of
           b1 # r \<Rightarrow>
             if cont b1 then cons_cp (unat (b0 AND 0x1F) * 64 + low6 b1) (utf8_decode r)
             else Inl UnicodeDecodeError
         | _ \<Rightarrow> Inl UnicodeDecodeError)
      else if 0xE0 \<le> b0 \<and> b0 \<le> 0xEF then
        (case bs of
           b1 # b2 # r \<Rightarrow>
             if cont b1 \<and> (b0 = 0xE0 \<longrightarrow> 0xA0 \<le> b1) \<and> (b0 = 0xED \<longrightarrow> b1 \<le> 0x9F) \<and> cont b2
             then cons_cp (unat (b0 AND 0x0F) * 4096 + low6 b1 * 64 + low6 b2) (utf8_decode r)
             else Inl UnicodeDecodeError
         | _ \<Rightarrow> Inl UnicodeDecodeError)
      else if 0xF0 \<le> b0 \<and> b0 \<le> 0xF4 then
        (case bs of
           b1 # b2 # b3 # r \<Rightarrow>
             if cont b1 \<and> (b0 = 0xF0 \<longrightarrow> 0x90 \<le> b1) \<and> (b0 = 0xF4 \<longrightarrow> b1 \<le> 0x8F) \<and> cont b2 \<and> cont b3
             then cons_cp (unat (b0 AND 0x07) * 262144 + low6 b1 * 4096 + low6 b2 * 64 + low6 b3)
                    (utf8_decode r)
             else Inl UnicodeDecodeError
         | _ \<Rightarrow> Inl UnicodeDecodeError)
      else Inl UnicodeDecodeError)"

text \<open>\<^verbatim>\<open>b.hex()\<close>: two lowercase hexadecimal digits for each byte.\<close>

definition hexdigit :: "byte \<Rightarrow> nat" where
  "hexdigit d = (if d < 10 then 0x30 + unat d else 0x57 + unat d)"

definition bytes_hex :: "byte list \<Rightarrow> pystr" where
  "bytes_hex b = concat (map (\<lambda>x. [hexdigit (drop_bit 4 x), hexdigit (x AND 0x0F)]) b)"

section \<open>Decoding a payload\<close>

datatype kind = KText | KHex | KRaw

fun kind_name :: "kind \<Rightarrow> pystr" where
  "kind_name KText = str ''text''"
| "kind_name KHex = str ''hex''"
| "kind_name KRaw = str ''raw''"

text \<open>
  \<^verbatim>\<open>try_decode_base64\<close>. The inner handler catches \<^verbatim>\<open>UnicodeDecodeError\<close> only, the
  outer one whatever derives from \<^verbatim>\<open>Exception\<close>; anything else would leave the
  function.
\<close>

definition try_decode_base64 :: "pystr \<Rightarrow> py_exn + (pystr \<times> kind)" where
  "try_decode_base64 s =
     (let s_clean = sub_ws s in
      case bind_exn (b64decode s_clean)
             (\<lambda>b. case utf8_decode b of
                     Inr t \<Rightarrow> Inr (t, KText)
                   | Inl UnicodeDecodeError \<Rightarrow> Inr (bytes_hex b, KHex)
                   | Inl e \<Rightarrow> Inl e) of
        Inr r \<Rightarrow> Inr r
      | Inl e \<Rightarrow> if is_Exception e then Inr (s, KRaw) else Inl e)"

section \<open>The parsed document\<close>

text \<open>
  A BeautifulSoup tree of elements and character data: a \<open>Tag\<close> has a name, its
  attributes and its contents; CDATA sections and text are \<open>NavigableString\<close>s. A
  \<open>Comment\<close> stands for the special strings that BeautifulSoup keeps in the tree (comments,
  processing instructions, declarations): \<^verbatim>\<open>.string\<close> returns one that is an only child,
  \<^verbatim>\<open>.strings\<close> passes over them. The same type serves for the XML input and for the
  HTML that the script builds.

  \<open>descendants\<close> lists what is below a node in document order, as the generator of that
  name does, each with its position (the child indices from the node down), which stands
  for the identity of the Python object.
\<close>

datatype node =
  Tag pystr "(pystr \<times> pystr) list" "node list" | NavigableString pystr | Comment pystr

fun descendants :: "path \<Rightarrow> node \<Rightarrow> (path \<times> node) list"
  and descendants_list :: "path \<Rightarrow> nat \<Rightarrow> node list \<Rightarrow> (path \<times> node) list" where
  "descendants p (NavigableString s) = []"
| "descendants p (Comment s) = []"
| "descendants p (Tag n a cs) = descendants_list p 0 cs"
| "descendants_list p i [] = []"
| "descendants_list p i (c # cs) =
     (p @ [i], c) # descendants (p @ [i]) c @ descendants_list p (Suc i) cs"

definition named :: "pystr \<Rightarrow> node \<Rightarrow> bool" where
  "named name c = (case c of Tag n a cs \<Rightarrow> n = name | NavigableString s \<Rightarrow> False | Comment s \<Rightarrow> False)"

text \<open>\<^verbatim>\<open>find_all(name)\<close>, with and without the positions, and \<^verbatim>\<open>find(name)\<close>.\<close>

definition find_all_at :: "pystr \<Rightarrow> node \<Rightarrow> (path \<times> node) list" where
  "find_all_at name t = filter (\<lambda>pc. named name (snd pc)) (descendants [] t)"

definition find_all :: "pystr \<Rightarrow> node \<Rightarrow> node list" where
  "find_all name t = map snd (find_all_at name t)"

definition find_tag :: "pystr \<Rightarrow> node \<Rightarrow> node option" where
  "find_tag name t = (case find_all name t of [] \<Rightarrow> None | x # xs \<Rightarrow> Some x)"

text \<open>\<^verbatim>\<open>node.strings\<close>, \<^verbatim>\<open>node.string\<close> and \<^verbatim>\<open>node.get(key)\<close>.\<close>

definition strings :: "node \<Rightarrow> pystr list" where
  "strings t =
     concat (map (\<lambda>pc. case snd pc of NavigableString s \<Rightarrow> [s] | Tag n a cs \<Rightarrow> [] | Comment s \<Rightarrow> [])
       (descendants [] t))"

fun tag_string :: "node \<Rightarrow> pystr option" where
  "tag_string (NavigableString s) = Some s"
| "tag_string (Comment s) = Some s"
| "tag_string (Tag n a [c]) = tag_string c"
| "tag_string (Tag n a cs) = None"

definition get :: "node \<Rightarrow> pystr \<Rightarrow> pystr option" where
  "get t key = (case t of Tag n a cs \<Rightarrow> map_of a key | NavigableString s \<Rightarrow> None | Comment s \<Rightarrow> None)"

text \<open>
  \<^verbatim>\<open>html_soup.new_tag(name, **{"class": c})\<close>, the assignment \<^verbatim>\<open>t.string = s\<close> and
  \<^verbatim>\<open>t.append(c)\<close>, each returning the tag it changed.
\<close>

definition new_tag :: "string \<Rightarrow> string \<Rightarrow> node" where
  "new_tag name c = Tag (str name) [(str ''class'', str c)] []"

definition set_string :: "node \<Rightarrow> pystr \<Rightarrow> node" where
  "set_string t s =
     (case t of Tag n a cs \<Rightarrow> Tag n a [NavigableString s] | NavigableString x \<Rightarrow> t | Comment x \<Rightarrow> t)"

definition append_child :: "node \<Rightarrow> node \<Rightarrow> node" where
  "append_child t c =
     (case t of Tag n a cs \<Rightarrow> Tag n a (cs @ [c]) | NavigableString x \<Rightarrow> t | Comment x \<Rightarrow> t)"

section \<open>Extracting the text of a node\<close>

text \<open>\<^verbatim>\<open>extract_node_text\<close>. An attribute value is true in a condition when it is there and not empty.\<close>

definition extract_node_text :: "node option \<Rightarrow> py_exn + (pystr option \<times> kind option)" where
  "extract_node_text nd =
     (case nd of
        None \<Rightarrow> Inr (None, None)
      | Some node \<Rightarrow>
          (let enc_attr = get node (str ''encoding'') in
           if (case enc_attr of None \<Rightarrow> False | Some e \<Rightarrow> e \<noteq> [] \<and> lower e = str ''base64'') then
             (let raw = concat (strings node) in
              bind_exn (try_decode_base64 raw) (\<lambda>(decoded, kind). Inr (Some decoded, Some kind)))
           else
             (let raw = concat (strings node) in
              if is_likely_base64 raw then
                bind_exn (try_decode_base64 raw) (\<lambda>(decoded, kind). Inr (Some decoded, Some kind))
              else Inr (Some (strip raw), Some KText))))"

section \<open>Building the report\<close>

text \<open>The decimal digits of an index, as an f-string prints it.\<close>

fun decimal :: "nat \<Rightarrow> pystr" where
  "decimal n = (if n < 10 then [0x30 + n] else decimal (n div 10) @ [0x30 + n mod 10])"

text \<open>
  The four optional lines of an entry (position, status, length, host) are built by the
  same five lines of \<^verbatim>\<open>add_entry\<close>, with another name, class and label each time. A
  \<open>Tag\<close> is always true in a condition, a string when it is not empty.
\<close>

definition field_line :: "node \<Rightarrow> string \<Rightarrow> string \<Rightarrow> string \<Rightarrow> node list" where
  "field_line item name c label =
     (case find_tag (str name) item of
        None \<Rightarrow> []
      | Some t \<Rightarrow>
          (case tag_string t of
             None \<Rightarrow> []
           | Some s \<Rightarrow> if s \<noteq> [] then [set_string (new_tag ''div'' c) (str label @ s)] else []))"

text \<open>\<^verbatim>\<open>add_block\<close>: what it appends to the entry, in order.\<close>

definition add_block :: "pystr \<Rightarrow> node option \<Rightarrow> py_exn + node list" where
  "add_block title_text nd =
     (case nd of
        None \<Rightarrow> Inr []
      | Some node \<Rightarrow>
          bind_exn (extract_node_text (Some node)) (\<lambda>(decoded, kind).
            let block = new_tag ''div'' (if title_text = str ''Request'' then ''req'' else ''resp'');
                title = set_string (new_tag ''div'' ''kv'') title_text;
                title = (case kind of
                           None \<Rightarrow> title
                         | Some k \<Rightarrow>
                             if k \<noteq> KText
                             then append_child title (set_string (new_tag ''span'' ''badge'') (kind_name k))
                             else title);
                block = append_child block title;
                pre = set_string (new_tag ''pre'' ''pre'') (case decoded of Some d \<Rightarrow> d | None \<Rightarrow> []);
                block = append_child block pre
            in Inr (block #
                 (case get node (str ''encoding'') of
                    None \<Rightarrow> []
                  | Some e \<Rightarrow>
                      if e \<noteq> []
                      then [set_string (new_tag ''div'' ''note'')
                              (str ''Original node encoding attribute: '' @ e)]
                      else []))))"

text \<open>\<^verbatim>\<open>add_entry\<close>: the entry that it appends to the container.\<close>

definition add_entry :: "nat \<Rightarrow> node \<Rightarrow> py_exn + node" where
  "add_entry idx item =
     (let eidx = set_string (new_tag ''div'' ''kv'') (str ''Item #'' @ decimal idx);
          hdr = Tag (str ''div'') [(str ''class'', str ''hdr'')]
                  (eidx # field_line item ''position'' ''small'' ''Position: ''
                        @ field_line item ''status'' ''status'' ''Status: ''
                        @ field_line item ''length'' ''small'' ''Length: '')
      in bind_exn (add_block (str ''Request'') (find_tag (str ''request'') item)) (\<lambda>req.
         bind_exn (add_block (str ''Response'') (find_tag (str ''response'') item)) (\<lambda>resp.
           Inr (Tag (str ''div'') [(str ''class'', str ''entry'')]
                  (hdr # req @ resp @ field_line item ''host'' ''small'' ''Host: '')))))"

text \<open>Lines 159 to 161: the items of the document.\<close>

definition extract_items :: "node \<Rightarrow> node list" where
  "extract_items soup_xml =
     (let items = find_all (str ''item'') soup_xml in
      if items = []
      then find_all (str ''attackitem'') soup_xml @ find_all (str ''row'') soup_xml
           @ find_all (str ''requestitem'') soup_xml
      else items)"

text \<open>\<^verbatim>\<open>for i, it in enumerate(items, 1): add_entry(i, it)\<close>.\<close>

fun add_entries :: "nat \<Rightarrow> node list \<Rightarrow> py_exn + node list" where
  "add_entries i [] = Inr []"
| "add_entries i (it # items) =
     bind_exn (add_entry i it) (\<lambda>e. bind_exn (add_entries (Suc i) items) (\<lambda>es. Inr (e # es)))"

text \<open>
  The fallback on pairs. \<^verbatim>\<open>wrapper.append(r)\<close> moves \<^verbatim>\<open>r\<close>: BeautifulSoup takes an
  element out of the tree it is in before it appends it. An element therefore holds, when
  its entry is built, what it held in the parsed document less the elements moved so far
  that were below it; \<open>prune moved p t\<close> is the element parsed at position \<open>p\<close> as \<open>t\<close>,
  in that state. \<open>pairs_loop\<close> is the loop, with the positions of the elements moved so
  far as its state.
\<close>

fun prune :: "path list \<Rightarrow> path \<Rightarrow> node \<Rightarrow> node"
  and prune_list :: "path list \<Rightarrow> path \<Rightarrow> nat \<Rightarrow> node list \<Rightarrow> node list" where
  "prune moved p (NavigableString s) = NavigableString s"
| "prune moved p (Comment s) = Comment s"
| "prune moved p (Tag n a cs) = Tag n a (prune_list moved p 0 cs)"
| "prune_list moved p i [] = []"
| "prune_list moved p i (c # cs) =
     (if p @ [i] \<in> set moved then [] else [prune moved (p @ [i]) c])
     @ prune_list moved p (Suc i) cs"

definition wrapper_of :: "path list \<Rightarrow> (path \<times> node) \<Rightarrow> (path \<times> node) \<Rightarrow> node" where
  "wrapper_of moved r s =
     Tag (str ''item'') [] [prune moved (fst r) (snd r), prune moved (fst s) (snd s)]"

fun pairs_loop :: "path list \<Rightarrow> nat \<Rightarrow> ((path \<times> node) \<times> (path \<times> node)) list \<Rightarrow> py_exn + node list" where
  "pairs_loop moved i [] = Inr []"
| "pairs_loop moved i ((r, s) # pairs) =
     (let moved = moved @ [fst r];
          moved = moved @ [fst s];
          wrapper = wrapper_of moved r s
      in bind_exn (add_entry i wrapper) (\<lambda>e.
         bind_exn (pairs_loop moved (Suc i) pairs) (\<lambda>es. Inr (e # es))))"

definition no_items_msg :: node where
  "no_items_msg =
     set_string (new_tag ''div'' ''entry'')
       (str ''No <item> or recognizable request/response pairs found in XML.'')"

text \<open>Lines 159 to 177: what the container of the report holds in the end.\<close>

definition build_container :: "node \<Rightarrow> py_exn + node list" where
  "build_container soup_xml =
     (let items = extract_items soup_xml in
      if items = [] then
        (let pairs = zip (find_all_at (str ''request'') soup_xml)
                         (find_all_at (str ''response'') soup_xml)
         in if pairs \<noteq> [] then pairs_loop [] 1 pairs else Inr [no_items_msg])
      else add_entries 1 items)"

section \<open>The script\<close>

text \<open>
  The world of a run: the text files that can be read (what the permissive decoder makes
  of them), the paths that can be written, the lines printed on the two streams and the
  files opened so far. The XML parser and the serialiser of the report are BeautifulSoup's
  and are parameters: \<open>parse\<close> is \<^verbatim>\<open>BeautifulSoup(xml, "xml")\<close> and \<open>to_str\<close> is
  \<^verbatim>\<open>str(html_soup)\<close> as a function of what the container holds. The result of a run
  is the exception that ended it, if any; an exception that nothing catches is reported on
  standard error by the interpreter.
\<close>

datatype access = Opened_for_reading pystr | Opened_for_writing pystr

record world =
  files :: "pystr \<Rightarrow> pystr option"
  writable :: "pystr \<Rightarrow> bool"
  stdout :: "pystr list"
  stderr :: "pystr list"
  accesses :: "access list"

definition usage :: pystr where
  "usage = str ''Usage: python3 burp_to_html_decode.py <intruder_xml_file> <output_html_file>''"

definition uncaught :: "py_exn \<Rightarrow> world \<Rightarrow> world \<times> py_exn option" where
  "uncaught e w = (w\<lparr>stderr := stderr w @ [str ''Traceback (most recent call last):'']\<rparr>, Some e)"

fun exit_code :: "py_exn option \<Rightarrow> int" where
  "exit_code None = 0"
| "exit_code (Some (SystemExit n)) = n"
| "exit_code (Some e) = 1"

definition script :: "(pystr \<Rightarrow> py_exn + node) \<Rightarrow> (node list \<Rightarrow> pystr) \<Rightarrow> pystr list \<Rightarrow> world
    \<Rightarrow> world \<times> py_exn option" where
  "script parse to_str argv w =
     (if length argv \<noteq> 3 then (w\<lparr>stdout := stdout w @ [usage]\<rparr>, Some (SystemExit 1))
      else
        (let infile = argv ! 1;
             outfile = argv ! 2;
             w = w\<lparr>accesses := accesses w @ [Opened_for_reading infile]\<rparr>
         in case files w infile of
              None \<Rightarrow> uncaught OSError w
            | Some xml \<Rightarrow>
                (case bind_exn (parse xml) build_container of
                   Inl e \<Rightarrow> uncaught e w
                 | Inr entries \<Rightarrow>
                     (let w = w\<lparr>accesses := accesses w @ [Opened_for_writing outfile]\<rparr>
                      in if \<not> writable w outfile then uncaught OSError w
                         else (w\<lparr>files := (files w)(outfile \<mapsto> to_str entries),
                                 stdout := stdout w @ [str ''Wrote '' @ outfile]\<rparr>, None)))))"

section \<open>The reference encoders of the round trip\<close>

text \<open>
  The standard Base64 encoding (RFC 4648, section 4), as \<^verbatim>\<open>base64.b64encode\<close> computes
  it: three bytes give four characters of the alphabet, each index masked to six bits, and
  a last group of one or two bytes is padded with \<^verbatim>\<open>=\<close>.
\<close>

definition table_b2a_base64 :: "byte list" where
  "table_b2a_base64 = ascii ''ABCDEFGHIJKLMNOPQRSTUVWXYZabcdefghijklmnopqrstuvwxyz0123456789+/''"

definition b2a :: "byte \<Rightarrow> byte" where
  "b2a v = table_b2a_base64 ! unat (v AND 0x3F)"

fun b2a_base64 :: "byte list \<Rightarrow> byte list" where
  "b2a_base64 [] = []"
| "b2a_base64 [x] = [b2a (drop_bit 2 x), b2a (push_bit 4 (x AND 0x03)), 0x3D, 0x3D]"
| "b2a_base64 [x, y] =
     [b2a (drop_bit 2 x), b2a (push_bit 4 (x AND 0x03) OR drop_bit 4 y),
      b2a (push_bit 2 (y AND 0x0F)), 0x3D]"
| "b2a_base64 (x # y # z # rest) =
     [b2a (drop_bit 2 x), b2a (push_bit 4 (x AND 0x03) OR drop_bit 4 y),
      b2a (push_bit 2 (y AND 0x0F) OR drop_bit 6 z), b2a (z AND 0x3F)] @ b2a_base64 rest"

definition b64encode :: "byte list \<Rightarrow> pystr" where
  "b64encode b = map unat (b2a_base64 b)"

text \<open>Reading lowercase hexadecimal back, two digits for a byte, as \<^verbatim>\<open>bytes.fromhex\<close> does.\<close>

definition hexval :: "nat \<Rightarrow> byte option" where
  "hexval c =
     (if 0x30 \<le> c \<and> c \<le> 0x39 then Some (of_nat (c - 0x30))
      else if 0x61 \<le> c \<and> c \<le> 0x66 then Some (of_nat (c - 0x57))
      else None)"

fun bytes_fromhex :: "pystr \<Rightarrow> byte list option" where
  "bytes_fromhex [] = Some []"
| "bytes_fromhex [h] = None"
| "bytes_fromhex (h # l # rest) =
     (case (hexval h, hexval l, bytes_fromhex rest) of
        (Some x, Some y, Some bs) \<Rightarrow> Some ((push_bit 4 x OR y) # bs)
      | _ \<Rightarrow> None)"

section \<open>Auxiliary notions and examples\<close>

text \<open>
  The positions of the elements that the loop over the pairs has moved when it builds the
  entry of pair \<open>i\<close> (counted from 0): those it had moved before, and both elements of
  every pair up to that one.
\<close>

definition moved_after :: "path list \<Rightarrow> ((path \<times> node) \<times> (path \<times> node)) list \<Rightarrow> nat \<Rightarrow> path list" where
  "moved_after moved pairs i =
     moved @ concat (map (\<lambda>rs. [fst (fst rs), fst (snd rs)]) (take (Suc i) pairs))"

text \<open>\<open>below q p\<close>: the position \<open>q\<close> lies under the position \<open>p\<close> in the tree.\<close>

definition below :: "path \<Rightarrow> path \<Rightarrow> bool" where
  "below q p \<longleftrightarrow> length p < length q \<and> take (length p) q = p"

text \<open>
  The block that \<^verbatim>\<open>add_block\<close> renders: a \<^verbatim>\<open>div\<close> of the given class with the title,
  the badge if there is one, and the text in a \<^verbatim>\<open>pre\<close> element.
\<close>

definition block_of :: "string \<Rightarrow> pystr \<Rightarrow> pystr option \<Rightarrow> pystr \<Rightarrow> node" where
  "block_of c title badge text =
     Tag (str ''div'') [(str ''class'', str c)]
       [Tag (str ''div'') [(str ''class'', str ''kv'')]
          (NavigableString title #
           (case badge of
              None \<Rightarrow> []
            | Some k \<Rightarrow> [Tag (str ''span'') [(str ''class'', str ''badge'')] [NavigableString k]])),
        Tag (str ''pre'') [(str ''class'', str ''pre'')] [NavigableString text]]"

text \<open>An entry with no header line but its label, holding the given blocks.\<close>

definition entry_of :: "pystr \<Rightarrow> node list \<Rightarrow> node" where
  "entry_of label blocks =
     Tag (str ''div'') [(str ''class'', str ''entry'')]
       (Tag (str ''div'') [(str ''class'', str ''hdr'')]
          [Tag (str ''div'') [(str ''class'', str ''kv'')] [NavigableString label]] # blocks)"

text \<open>
  Example documents: one with an \<^verbatim>\<open>attackitem\<close> and an \<^verbatim>\<open>item\<close>, one with three
  requests and two responses and no container; a request that declares no encoding, and a
  response that declares Base64 and holds nothing. A parser, a serialiser and a world for
  running the script on them.
\<close>

definition example_items_doc :: node where
  "example_items_doc =
     Tag (str ''[document]'') []
       [Tag (str ''items'') []
          [Tag (str ''attackitem'') [] [Tag (str ''status'') [] [NavigableString (str ''500'')]],
           Tag (str ''item'') []
             [Tag (str ''status'') [] [NavigableString (str ''200'')],
              Tag (str ''request'') [(str ''encoding'', str ''base64'')]
                [NavigableString (str ''aGVsbG8='')]]]]"

definition example_pairs_doc :: node where
  "example_pairs_doc =
     Tag (str ''[document]'') []
       [Tag (str ''log'') []
          [Tag (str ''request'') [] [NavigableString (str ''GET /a'')],
           Tag (str ''response'') [] [NavigableString (str ''200 OK'')],
           Tag (str ''request'') [] [NavigableString (str ''GET /b'')],
           Tag (str ''response'') [] [NavigableString (str ''404'')],
           Tag (str ''request'') [] [NavigableString (str ''GET /c'')]]]"

text \<open>Two requests and two responses, the first response inside the first request.\<close>

definition example_nested_doc :: node where
  "example_nested_doc =
     Tag (str ''[document]'') []
       [Tag (str ''log'') []
          [Tag (str ''request'') []
             [NavigableString (str ''GET /a''),
              Tag (str ''response'') [] [NavigableString (str ''200 OK'')]],
           Tag (str ''request'') [] [NavigableString (str ''GET /b'')],
           Tag (str ''response'') [] [NavigableString (str ''404'')]]]"

definition raw_node :: node where
  "raw_node = Tag (str ''request'') [] [NavigableString (str ''AAAA=AAA'')]"

definition empty_base64_node :: node where
  "empty_base64_node = Tag (str ''response'') [(str ''encoding'', str ''base64'')] []"

definition example_parser :: "pystr \<Rightarrow> py_exn + node" where
  "example_parser xml = Inr example_items_doc"

definition example_to_str :: "node list \<Rightarrow> pystr" where
  "example_to_str entries = decimal (length entries)"

definition example_world :: world where
  "example_world =
     \<lparr>files = [str ''in.xml'' \<mapsto> str ''<items/>''], writable = (\<lambda>p. True),
      stdout = [], stderr = [], accesses = []\<rparr>"

section \<open>The rules of the specification, as it words them\<close>

text \<open>
  Rules 1 to 3 of the specification's \<^verbatim>\<open>classifyAsBase64\<close> on an already trimmed
  string: at least 8 characters, each of them of the Base64 alphabet or one of space, CR,
  LF, and a multiple of 4 of them once space, CR and LF are removed.
\<close>

definition spec_ws :: "nat \<Rightarrow> bool" where
  "spec_ws c \<longleftrightarrow> c = 32 \<or> c = 13 \<or> c = 10"

definition spec_ws_free_length :: "pystr \<Rightarrow> nat" where
  "spec_ws_free_length s = length (filter (\<lambda>c. \<not> spec_ws c) s)"

definition spec_rules_1_3 :: "pystr \<Rightarrow> bool" where
  "spec_rules_1_3 t \<longleftrightarrow>
     length t \<ge> 8 \<and> list_all (\<lambda>c. is_b64char c \<or> spec_ws c) t \<and> spec_ws_free_length t mod 4 = 0"

text \<open>Rule 4 as the specification words it: the ratio over the untrimmed string.\<close>

definition spec_ratio_untrimmed :: "pystr \<Rightarrow> bool" where
  "spec_ratio_untrimmed s \<longleftrightarrow> real (length (filter is_b64char s)) / real (length s) > 9 / 10"

section \<open>Evaluation of the character classes\<close>

lemma str_Nil [simp]: "str [] = []"
  by (simp add: str_def)

lemma str_Cons [simp]: "str (c # cs) = of_char c # str cs"
  by (simp add: str_def)

section \<open>The Base64 heuristic: rules 3 and 4\<close>

text \<open>
  C2, as the specification states it, fails: the ratio is taken over the trimmed string.
  Eight letters followed by a space pass rules 1 to 3 once trimmed and are classified as
  Base64, while 8 of the 9 characters of the untrimmed string is not more than 0.9.
\<close>

theorem C2_untrimmed_ratio_counterexample:
  "spec_rules_1_3 (strip (str ''AAAAAAAA '')) \<and> is_likely_base64 (str ''AAAAAAAA '')
   \<and> \<not> spec_ratio_untrimmed (str ''AAAAAAAA '')"
  by (simp add: spec_rules_1_3_def spec_ws_free_length_def spec_ws_def spec_ratio_untrimmed_def
      is_likely_base64_def strip_def isspace_def is_b64char_def fullmatch_b64_ws_def
      remove_char_def findall_b64_def)

text \<open>
  C2, amended: for every string whose trimmed form passes the three checks that precede
  the ratio in the code (at least 8 characters, each of the Base64 alphabet or
  whitespace, a multiple of 4 of them once CR and LF are removed), \<open>is_likely_base64\<close>
  holds exactly when the number of Base64-alphabet characters of the trimmed string,
  divided by the length of the trimmed string, exceeds 0.9.
\<close>

theorem C2_ratio_over_trimmed:
  assumes "length (strip s) \<ge> 8"
    and "fullmatch_b64_ws (strip s)"
    and "length (remove_char 13 (remove_char 10 (strip s))) mod 4 = 0"
  shows "is_likely_base64 s \<longleftrightarrow>
         real (length (filter is_b64char (strip s))) / real (length (strip s)) > 9 / 10"
proof -
  from assms(1) have ne: "strip s \<noteq> []" and len: "\<not> length (strip s) < 8"
    by auto
  from assms(1) have m: "max 1 (length (strip s)) = length (strip s)"
    by simp
  show ?thesis
    unfolding is_likely_base64_def Let_def findall_b64_def
    using ne len assms(2,3) m by simp
qed

theorem C2_ratio_over_trimmed_witness:
  "length (strip (str ''AAAAAAAA '')) \<ge> 8
   \<and> fullmatch_b64_ws (strip (str ''AAAAAAAA ''))
   \<and> length (remove_char 13 (remove_char 10 (strip (str ''AAAAAAAA '')))) mod 4 = 0
   \<and> is_likely_base64 (str ''AAAAAAAA '')
   \<and> real (length (filter is_b64char (strip (str ''AAAAAAAA '')))) /
       real (length (strip (str ''AAAAAAAA ''))) > 9 / 10"
proof -
  have h1: "length (strip (str ''AAAAAAAA '')) \<ge> 8"
    by (simp add: strip_def isspace_def)
  have h2: "fullmatch_b64_ws (strip (str ''AAAAAAAA ''))"
    by (simp add: strip_def isspace_def fullmatch_b64_ws_def is_b64char_def)
  have h3: "length (remove_char 13 (remove_char 10 (strip (str ''AAAAAAAA '')))) mod 4 = 0"
    by (simp add: strip_def isspace_def remove_char_def)
  have r: "real (length (filter is_b64char (strip (str ''AAAAAAAA '')))) /
       real (length (strip (str ''AAAAAAAA ''))) > 9 / 10"
    by (simp add: strip_def isspace_def is_b64char_def)
  from C2_ratio_over_trimmed [OF h1 h2 h3] r have "is_likely_base64 (str ''AAAAAAAA '')"
    by blast
  with h1 h2 h3 r show ?thesis
    by blast
qed

text \<open>
  The three checks are those of the code because rule 3 is not the specification's either
  (see C3): six letters, a space and six letters pass the specification's rules 1 to 3 and
  have a ratio of 12/13, and are not classified as Base64, their length being 13.
\<close>

lemma rule_3_counts_interior_space:
  "spec_rules_1_3 (strip (str ''AAAAAA AAAAAA'')) \<and> \<not> is_likely_base64 (str ''AAAAAA AAAAAA'')
   \<and> real (length (filter is_b64char (strip (str ''AAAAAA AAAAAA'')))) /
       real (length (strip (str ''AAAAAA AAAAAA''))) > 9 / 10"
  by (simp add: spec_rules_1_3_def spec_ws_free_length_def spec_ws_def
      is_likely_base64_def strip_def isspace_def is_b64char_def fullmatch_b64_ws_def
      remove_char_def findall_b64_def)

text \<open>
  C3, as the specification states it, fails: only CR and LF are taken out before the
  length is tested, so an interior space counts. Five letters, a space and six letters are
  12 characters, 11 of them of the alphabet: classified as Base64, with a whitespace-free
  length of 11.
\<close>

theorem C3_interior_space_counterexample:
  "is_likely_base64 (str ''AAAAA AAAAAA'')
   \<and> spec_ws_free_length (str ''AAAAA AAAAAA'') mod 4 \<noteq> 0"
  by (simp add: spec_ws_free_length_def spec_ws_def
      is_likely_base64_def strip_def isspace_def is_b64char_def fullmatch_b64_ws_def
      remove_char_def findall_b64_def)

text \<open>
  C3, amended: \<open>is_likely_base64\<close> holds only if the length of the trimmed string with
  its CR and LF characters removed is a multiple of 4; interior spaces, and any other
  whitespace than CR and LF, count in that length.
\<close>

theorem C3_length_without_newlines:
  "is_likely_base64 s \<Longrightarrow> length (remove_char 13 (remove_char 10 (strip s))) mod 4 = 0"
  unfolding is_likely_base64_def Let_def
  by (simp split: if_splits)

theorem C3_length_without_newlines_witness:
  "is_likely_base64 (str ''AAAAA AAAAAA'')
   \<and> length (remove_char 13 (remove_char 10 (strip (str ''AAAAA AAAAAA'')))) mod 4 = 0"
proof -
  have h: "is_likely_base64 (str ''AAAAA AAAAAA'')"
    by (simp add: is_likely_base64_def strip_def isspace_def is_b64char_def fullmatch_b64_ws_def
        remove_char_def findall_b64_def)
  from C3_length_without_newlines [OF h] h show ?thesis
    by blast
qed

section \<open>Base64: decoding inverts encoding\<close>

lemma m63: "(0x3F :: byte) = mask 6" and m15: "(0x0F :: byte) = mask 4" and m3: "(0x03 :: byte) = mask 2"
  by (simp_all add: mask_eq_exp_minus_1)

lemma bit_index_cases: "n < 8 \<Longrightarrow> n \<in> {0, 1, 2, 3, 4, 5, 6, 7 :: nat}"
  unfolding insert_iff empty_iff by arith

lemma quad_byte1:
  fixes x y :: byte
  shows "push_bit 2 (drop_bit 2 x AND 0x3F) OR drop_bit 4 ((push_bit 4 (x AND 0x03) OR drop_bit 4 y) AND 0x3F) = x"
  unfolding m63 m15 m3
proof (rule bit_word_eqI)
  fix n :: nat
  assume "n < LENGTH(8)"
  then have "n < 8" by simp
  then have "n \<in> {0, 1, 2, 3, 4, 5, 6, 7 :: nat}" by (rule bit_index_cases)
  then show "bit (push_bit 2 (drop_bit 2 x AND mask 6) OR drop_bit 4 ((push_bit 4 (x AND mask 2) OR drop_bit 4 y) AND mask 6)) n = bit x n"
    by (auto simp add: bit_simps) (simp_all add: numeral_2_eq_2 numeral_3_eq_3)
qed

lemma quad_byte2:
  fixes x y z :: byte
  shows "push_bit 4 (((push_bit 4 (x AND 0x03) OR drop_bit 4 y) AND 0x3F) AND 0x0F)
         OR drop_bit 2 ((push_bit 2 (y AND 0x0F) OR drop_bit 6 z) AND 0x3F) = y"
  unfolding m63 m15 m3
proof (rule bit_word_eqI)
  fix n :: nat
  assume "n < LENGTH(8)"
  then have "n < 8" by simp
  then have "n \<in> {0, 1, 2, 3, 4, 5, 6, 7 :: nat}" by (rule bit_index_cases)
  then show "bit (push_bit 4 (((push_bit 4 (x AND mask 2) OR drop_bit 4 y) AND mask 6) AND mask 4)
         OR drop_bit 2 ((push_bit 2 (y AND mask 4) OR drop_bit 6 z) AND mask 6)) n = bit y n"
    by (auto simp add: bit_simps)
qed

lemma quad_byte3:
  fixes y z :: byte
  shows "push_bit 6 (((push_bit 2 (y AND 0x0F) OR drop_bit 6 z) AND 0x3F) AND 0x03) OR ((z AND 0x3F) AND 0x3F) = z"
  unfolding m63 m15 m3
proof (rule bit_word_eqI)
  fix n :: nat
  assume "n < LENGTH(8)"
  then have "n < 8" by simp
  then have "n \<in> {0, 1, 2, 3, 4, 5, 6, 7 :: nat}" by (rule bit_index_cases)
  then show "bit (push_bit 6 (((push_bit 2 (y AND mask 4) OR drop_bit 6 z) AND mask 6) AND mask 2) OR ((z AND mask 6) AND mask 6)) n = bit z n"
    by (auto simp add: bit_simps)
qed

lemma length_table_b2a_base64: "length table_b2a_base64 = 64"
  by (simp add: table_b2a_base64_def ascii_def)

lemma table_roundtrip_all:
  "list_all (\<lambda>ic. table_a2b_base64 (snd ic) = Some (of_nat (fst ic)))
     (enumerate 0 table_b2a_base64)"
  by (simp add: table_b2a_base64_def ascii_def table_a2b_base64_def)

lemma table_roundtrip_nat:
  assumes "n < 64"
  shows "table_a2b_base64 (table_b2a_base64 ! n) = Some (of_nat n)"
  using table_roundtrip_all assms
  by (simp add: list_all_length length_table_b2a_base64 nth_enumerate_eq)

lemma and63_less: "unat ((v::byte) AND 0x3F) < 64"
proof -
  have "v AND 0x3F \<le> 0x3F" by (rule word_and_le1)
  then show ?thesis by (simp add: word_le_nat_alt)
qed

lemma a2b_b2a: "table_a2b_base64 (b2a v) = Some (v AND 0x3F)"
  unfolding b2a_def using table_roundtrip_nat [OF and63_less, of v] by simp


lemma table_a2b_Some:
  assumes "table_a2b_base64 c = Some v"
  shows "is_b64char (unat c) \<and> c \<noteq> 0x3D"
  using assms
  by (auto simp add: table_a2b_base64_def is_b64char_def word_le_nat_alt split: if_splits)

lemma b2a_b64char: "is_b64char (unat (b2a v))"
  using table_a2b_Some [OF a2b_b2a] by blast

lemma b2a_not_pad [simp]: "b2a v \<noteq> 0x3D"
  using table_a2b_Some [OF a2b_b2a] by blast

lemma quad_tail1:
  fixes x :: byte
  shows "push_bit 2 (drop_bit 2 x AND 0x3F) OR drop_bit 4 (push_bit 4 (x AND 0x03) AND 0x3F) = x"
  unfolding m63 m15 m3
proof (rule bit_word_eqI)
  fix n :: nat
  assume "n < LENGTH(8)"
  then have "n < 8" by simp
  then have "n \<in> {0, 1, 2, 3, 4, 5, 6, 7 :: nat}" by (rule bit_index_cases)
  then show "bit (push_bit 2 (drop_bit 2 x AND mask 6) OR drop_bit 4 (push_bit 4 (x AND mask 2) AND mask 6)) n = bit x n"
    by (auto simp add: bit_simps) (simp_all add: numeral_2_eq_2 numeral_3_eq_3)
qed

lemma quad_tail2:
  fixes x y :: byte
  shows "push_bit 4 (((push_bit 4 (x AND 0x03) OR drop_bit 4 y) AND 0x3F) AND 0x0F)
         OR drop_bit 2 (push_bit 2 (y AND 0x0F) AND 0x3F) = y"
  unfolding m63 m15 m3
proof (rule bit_word_eqI)
  fix n :: nat
  assume "n < LENGTH(8)"
  then have "n < 8" by simp
  then have "n \<in> {0, 1, 2, 3, 4, 5, 6, 7 :: nat}" by (rule bit_index_cases)
  then show "bit (push_bit 4 (((push_bit 4 (x AND mask 2) OR drop_bit 4 y) AND mask 6) AND mask 4)
         OR drop_bit 2 (push_bit 2 (y AND mask 4) AND mask 6)) n = bit y n"
    by (auto simp add: bit_simps)
qed

lemma a2b_loop_quad:
  "a2b_loop (b2a v0 # b2a v1 # b2a v2 # b2a v3 # rest) 0 l 0 False out =
   a2b_loop rest 0 0 0 False
     (out @ [push_bit 2 (v0 AND 0x3F) OR drop_bit 4 (v1 AND 0x3F),
             push_bit 4 ((v1 AND 0x3F) AND 0x0F) OR drop_bit 2 (v2 AND 0x3F),
             push_bit 6 ((v2 AND 0x3F) AND 0x03) OR (v3 AND 0x3F)])"
  by (simp add: a2b_b2a)

lemma a2b_loop_tail2:
  "a2b_loop [b2a v0, b2a v1, b2a v2, 0x3D] 0 l 0 False out =
   Inr (out @ [push_bit 2 (v0 AND 0x3F) OR drop_bit 4 (v1 AND 0x3F),
               push_bit 4 ((v1 AND 0x3F) AND 0x0F) OR drop_bit 2 (v2 AND 0x3F)])"
  by (simp add: a2b_b2a)

lemma a2b_loop_tail1:
  "a2b_loop [b2a v0, b2a v1, 0x3D, 0x3D] 0 l 0 False out =
   Inr (out @ [push_bit 2 (v0 AND 0x3F) OR drop_bit 4 (v1 AND 0x3F)])"
  by (simp add: a2b_b2a)

lemma a2b_loop_b2a_base64:
  "a2b_loop (b2a_base64 b) 0 0 0 False out = Inr (out @ b)"
proof (induction b arbitrary: out rule: b2a_base64.induct)
  case 1
  show ?case by simp
next
  case (2 x)
  show ?case
    by (simp only: b2a_base64.simps a2b_loop_tail1 quad_tail1)
next
  case (3 x y)
  show ?case
    by (simp only: b2a_base64.simps a2b_loop_tail2 quad_byte1 quad_tail2)
next
  case (4 x y z rest)
  have "a2b_loop (b2a_base64 (x # y # z # rest)) 0 0 0 False out =
        a2b_loop (b2a_base64 rest) 0 0 0 False (out @ [x, y, z])"
    by (simp only: b2a_base64.simps append_Cons append_Nil a2b_loop_quad
        quad_byte1 quad_byte2 quad_byte3)
  also have "\<dots> = Inr ((out @ [x, y, z]) @ rest)"
    by (rule "4.IH")
  finally show ?case by simp
qed

lemma hd_b2a_base64: "b \<noteq> [] \<Longrightarrow> hd (b2a_base64 b) \<noteq> 0x3D"
  by (cases b rule: b2a_base64.cases) simp_all

lemma a2b_base64_b2a_base64: "a2b_base64 (b2a_base64 b) = Inr b"
proof (cases "b = []")
  case True
  then show ?thesis by (simp add: a2b_base64_def)
next
  case False
  with hd_b2a_base64 [OF False] a2b_loop_b2a_base64 [of b "[]"] show ?thesis
    by (simp add: a2b_base64_def)
qed

lemma b2a_base64_chars: "c \<in> set (b2a_base64 b) \<Longrightarrow> is_b64char (unat c)"
proof (induction b rule: b2a_base64.induct)
  case 1
  then show ?case by simp
next
  case (2 x)
  then show ?case by (auto simp add: b2a_b64char) (simp add: is_b64char_def)
next
  case (3 x y)
  then show ?case by (auto simp add: b2a_b64char) (simp add: is_b64char_def)
next
  case (4 x y z rest)
  then show ?case by (auto simp add: b2a_b64char)
qed

lemma is_b64char_ascii: "is_b64char c \<Longrightarrow> c < 128 \<and> \<not> isspace c"
  by (auto simp add: is_b64char_def isspace_def)

lemma b64decode_b64encode: "b64decode (b64encode b) = Inr b"
proof -
  have "list_all (\<lambda>c. c < 128) (map unat (b2a_base64 b))"
    using b2a_base64_chars is_b64char_ascii by (fastforce simp add: list_all_iff)
  moreover have "map of_nat (map unat (b2a_base64 b)) = b2a_base64 b"
    by (simp add: map_idI)
  ultimately show ?thesis
    by (simp add: b64decode_def b64encode_def bytes_from_decode_data_def bind_exn_def
        a2b_base64_b2a_base64)
qed

lemma sub_ws_b64encode: "sub_ws (b64encode b) = b64encode b"
  unfolding sub_ws_def b64encode_def
  using b2a_base64_chars is_b64char_ascii by (fastforce intro: filter_True)

section \<open>What the decoders raise\<close>

lemma cons_cp_Inl [simp]: "cons_cp c r = Inl e \<longleftrightarrow> r = Inl e"
  by (cases r) (simp_all add: cons_cp_def)

lemma utf8_decode_exn: "utf8_decode b = Inl e \<Longrightarrow> e = UnicodeDecodeError"
proof (induction b rule: utf8_decode.induct)
  case 1
  then show ?case by simp
next
  case (2 b0 bs)
  show ?case
  proof (cases "b0 < 0x80")
    case True
    with 2 show ?thesis by simp
  next
    case n1: False
    show ?thesis
    proof (cases "0xC2 \<le> b0 \<and> b0 \<le> 0xDF")
      case True
      with n1 2 show ?thesis
        by (cases bs) (simp_all split: if_splits)
    next
      case n2: False
      show ?thesis
      proof (cases "0xE0 \<le> b0 \<and> b0 \<le> 0xEF")
        case True
        with n1 n2 "2.prems" "2.IH"(3) show ?thesis
          by (simp split: list.splits if_splits)
      next
        case n3: False
        show ?thesis
        proof (cases "0xF0 \<le> b0 \<and> b0 \<le> 0xF4")
          case True
          with n1 n2 n3 "2.prems" "2.IH"(4) show ?thesis
            by (simp split: list.splits if_splits)
        next
          case False
          with n1 n2 n3 "2.prems" show ?thesis by (simp only: utf8_decode.simps if_False) simp
        qed
      qed
    qed
  qed
qed

lemma a2b_loop_exn:
  "a2b_loop d q l p ps out = Inl e \<Longrightarrow> e = BinasciiError"
  by (induction d arbitrary: q l p ps out) (auto split: if_splits option.splits)

lemma b64decode_exn:
  assumes "b64decode s = Inl e"
  shows "e = ValueError \<or> e = BinasciiError"
  using assms a2b_loop_exn
  by (auto simp add: b64decode_def bind_exn_def bytes_from_decode_data_def a2b_base64_def
      split: if_splits)

lemma try_decode_base64_eq:
  "try_decode_base64 s =
     Inr (case b64decode (sub_ws s) of
            Inl e \<Rightarrow> (s, KRaw)
          | Inr b \<Rightarrow> (case utf8_decode b of Inr t \<Rightarrow> (t, KText) | Inl e \<Rightarrow> (bytes_hex b, KHex)))"
proof (cases "b64decode (sub_ws s)")
  case (Inl e)
  with b64decode_exn [OF Inl] show ?thesis
    by (auto simp add: try_decode_base64_def bind_exn_def)
next
  case (Inr b)
  show ?thesis
  proof (cases "utf8_decode b")
    case (Inl e)
    with utf8_decode_exn [OF Inl] Inr show ?thesis
      by (simp add: try_decode_base64_def bind_exn_def)
  next
    case r: (Inr t)
    with Inr show ?thesis
      by (simp add: try_decode_base64_def bind_exn_def)
  qed
qed

text \<open>
  C1: \<open>try_decode_base64\<close> returns a payload for every string, no exception leaves it,
  and a payload of kind \<^verbatim>\<open>raw\<close> carries the input unchanged.
\<close>

theorem C1_try_decode_base64_returns:
  "\<exists>t k. try_decode_base64 s = Inr (t, k) \<and> (k = KRaw \<longrightarrow> t = s)"
  unfolding try_decode_base64_eq
  by (auto split: sum.splits)

theorem C1_try_decode_base64_returns_witness:
  "\<exists>t k. try_decode_base64 (str ''not-base64-data!!'') = Inr (t, k) \<and> k = KRaw
     \<and> t = str ''not-base64-data!!''"
proof -
  have "try_decode_base64 (str ''not-base64-data!!'') = Inr (str ''not-base64-data!!'', KRaw)"
    by (simp add: try_decode_base64_def sub_ws_def isspace_def b64decode_def
        bytes_from_decode_data_def bind_exn_def a2b_base64_def table_a2b_base64_def)
  with C1_try_decode_base64_returns [of "str ''not-base64-data!!''"] show ?thesis
    by simp
qed

section \<open>The round trip through Base64, UTF-8 and hexadecimal\<close>

lemma hexval_hexdigit:
  fixes d :: byte
  assumes "d < 16"
  shows "hexval (hexdigit d) = Some d"
proof -
  from assms have "unat d < 16" by (simp add: word_less_nat_alt)
  then show ?thesis
    by (auto simp add: hexval_def hexdigit_def word_less_nat_alt)
qed

lemma nibbles:
  fixes x :: byte
  shows "drop_bit 4 x < 16" and "x AND 0x0F < 16" and "push_bit 4 (drop_bit 4 x) OR (x AND 0x0F) = x"
proof -
  have "unat x < 2 ^ LENGTH(8)" by (rule unsigned_less)
  then have "unat x < 256" by simp
  moreover have "unat (drop_bit 4 x) = unat x div 16"
    by (simp add: drop_bit_eq_div unat_div)
  ultimately have "unat (drop_bit 4 x) < 16" by simp
  then show "drop_bit 4 x < 16" by (simp add: word_less_nat_alt)
  have "x AND 0x0F \<le> 0x0F" by (rule word_and_le1)
  then show "x AND 0x0F < 16" by (simp add: word_le_nat_alt word_less_nat_alt)
  show "push_bit 4 (drop_bit 4 x) OR (x AND 0x0F) = x"
    unfolding m15
  proof (rule bit_word_eqI)
    fix n :: nat
    assume "n < LENGTH(8)"
    then have "n < 8" by simp
    then have "n \<in> {0, 1, 2, 3, 4, 5, 6, 7 :: nat}" by (rule bit_index_cases)
    then show "bit (push_bit 4 (drop_bit 4 x) OR (x AND mask 4)) n = bit x n"
      by (auto simp add: bit_simps)
  qed
qed

lemma bytes_fromhex_bytes_hex: "bytes_fromhex (bytes_hex b) = Some b"
  by (induction b) (simp_all add: bytes_hex_def hexval_hexdigit nibbles)

text \<open>
  C7: for every byte sequence \<open>b\<close>, decoding the standard Base64 encoding of \<open>b\<close> gives
  the UTF-8 reading of \<open>b\<close> with kind \<^verbatim>\<open>text\<close> when \<open>b\<close> is valid UTF-8, and
  otherwise the lowercase hexadecimal digits of \<open>b\<close> with kind \<^verbatim>\<open>hex\<close>; reading the
  hexadecimal digits back gives \<open>b\<close>.
\<close>

theorem C7_base64_round_trip:
  "try_decode_base64 (b64encode b) =
     Inr (case utf8_decode b of Inr t \<Rightarrow> (t, KText) | Inl e \<Rightarrow> (bytes_hex b, KHex))
   \<and> bytes_fromhex (bytes_hex b) = Some b"
  by (simp add: try_decode_base64_eq sub_ws_b64encode b64decode_b64encode bytes_fromhex_bytes_hex)

theorem C7_base64_round_trip_witness:
  "try_decode_base64 (str ''aGVsbG8='') = Inr (str ''hello'', KText)
   \<and> try_decode_base64 (str ''/wCr'') = Inr (str ''ff00ab'', KHex)
   \<and> bytes_fromhex (str ''ff00ab'') = Some [0xFF, 0x00, 0xAB]"
proof -
  have e1: "b64encode (ascii ''hello'') = str ''aGVsbG8=''"
    by (simp add: b64encode_def ascii_def b2a_def table_b2a_base64_def)
  have u1: "utf8_decode (ascii ''hello'') = Inr (str ''hello'')"
    by (simp add: ascii_def cons_cp_def)
  have e2: "b64encode [0xFF, 0x00, 0xAB] = str ''/wCr''"
    by (simp add: b64encode_def ascii_def b2a_def table_b2a_base64_def)
  have u2: "utf8_decode [0xFF, 0x00, 0xAB] = Inl UnicodeDecodeError"
    by simp
  have h2: "bytes_hex [0xFF, 0x00, 0xAB] = str ''ff00ab''"
    by (simp add: bytes_hex_def hexdigit_def)
  from C7_base64_round_trip [of "ascii ''hello''"] C7_base64_round_trip [of "[0xFF, 0x00, 0xAB]"]
  show ?thesis
    unfolding e1 u1 e2 u2 h2 by simp
qed

section \<open>Empty and whitespace-only payloads\<close>

lemma sub_ws_whitespace: "list_all isspace s \<Longrightarrow> sub_ws s = []"
  by (simp add: sub_ws_def list_all_iff)

lemma b64decode_Nil: "b64decode [] = Inr []"
  by (simp add: b64decode_def bytes_from_decode_data_def bind_exn_def a2b_base64_def)

lemma try_decode_base64_whitespace:
  "list_all isspace s \<Longrightarrow> try_decode_base64 s = Inr ([], KText)"
  by (simp add: try_decode_base64_eq sub_ws_whitespace b64decode_Nil)

section \<open>The report builders return\<close>

lemma extract_node_text_returns: "\<exists>d k. extract_node_text nd = Inr (d, k)"
  by (cases nd) (auto simp add: extract_node_text_def Let_def try_decode_base64_eq bind_exn_def
      split: option.splits sum.splits)

lemma add_block_returns: "\<exists>ns. add_block title_text nd = Inr ns"
proof (cases nd)
  case None
  then show ?thesis by (simp add: add_block_def)
next
  case (Some node)
  obtain d k where "extract_node_text (Some node) = Inr (d, k)"
    using extract_node_text_returns by blast
  with Some show ?thesis
    by (simp add: add_block_def bind_exn_def Let_def)
qed

lemma add_entry_returns: "\<exists>e. add_entry idx item = Inr e"
proof -
  obtain req where "add_block (str ''Request'') (find_tag (str ''request'') item) = Inr req"
    using add_block_returns by blast
  moreover obtain resp where "add_block (str ''Response'') (find_tag (str ''response'') item) = Inr resp"
    using add_block_returns by blast
  ultimately show ?thesis
    by (simp add: add_entry_def bind_exn_def Let_def)
qed

lemma add_entries_spec:
  "\<exists>es. add_entries j items = Inr es \<and> length es = length items
        \<and> (\<forall>i<length items. add_entry (j + i) (items ! i) = Inr (es ! i))"
proof (induction items arbitrary: j)
  case Nil
  show ?case by simp
next
  case (Cons it items)
  obtain e where e: "add_entry j it = Inr e"
    using add_entry_returns by blast
  from Cons.IH [of "Suc j"] obtain es where es: "add_entries (Suc j) items = Inr es"
    "length es = length items"
    "\<forall>i<length items. add_entry (Suc j + i) (items ! i) = Inr (es ! i)"
    by blast
  have "add_entries j (it # items) = Inr (e # es)"
    using e es(1) by (simp add: bind_exn_def)
  moreover have "length (e # es) = length (it # items)"
    using es(2) by simp
  moreover have "\<forall>i<length (it # items). add_entry (j + i) ((it # items) ! i) = Inr ((e # es) ! i)"
  proof (intro allI impI)
    fix i
    assume "i < length (it # items)"
    then show "add_entry (j + i) ((it # items) ! i) = Inr ((e # es) ! i)"
      using e es(3) by (cases i) simp_all
  qed
  ultimately show ?case by blast
qed

lemma pairs_loop_spec:
  "\<exists>es. pairs_loop moved j pairs = Inr es \<and> length es = length pairs
        \<and> (\<forall>i<length pairs.
              add_entry (j + i)
                (wrapper_of (moved_after moved pairs i) (fst (pairs ! i)) (snd (pairs ! i)))
              = Inr (es ! i))"
proof (induction pairs arbitrary: moved j)
  case Nil
  show ?case by simp
next
  case (Cons rs pairs)
  obtain r s where rs: "rs = (r, s)" by (cases rs)
  let ?m = "(moved @ [fst r]) @ [fst s]"
  obtain e where e: "add_entry j (wrapper_of ?m r s) = Inr e"
    using add_entry_returns by blast
  from Cons.IH [of ?m "Suc j"] obtain es where es: "pairs_loop ?m (Suc j) pairs = Inr es"
    "length es = length pairs"
    "\<forall>i<length pairs.
        add_entry (Suc j + i) (wrapper_of (moved_after ?m pairs i) (fst (pairs ! i)) (snd (pairs ! i)))
        = Inr (es ! i)"
    by blast
  have "pairs_loop moved j (rs # pairs) = Inr (e # es)"
    using e es(1) by (simp add: rs bind_exn_def Let_def)
  moreover have "length (e # es) = length (rs # pairs)"
    using es(2) by simp
  moreover have "\<forall>i<length (rs # pairs).
      add_entry (j + i)
        (wrapper_of (moved_after moved (rs # pairs) i) (fst ((rs # pairs) ! i)) (snd ((rs # pairs) ! i)))
      = Inr ((e # es) ! i)"
  proof (intro allI impI)
    fix i
    assume "i < length (rs # pairs)"
    then show "add_entry (j + i)
        (wrapper_of (moved_after moved (rs # pairs) i) (fst ((rs # pairs) ! i)) (snd ((rs # pairs) ! i)))
      = Inr ((e # es) ! i)"
      using e es(3) by (cases i) (simp_all add: rs moved_after_def)
  qed
  ultimately show ?case by blast
qed

text \<open>
  What \<open>add_block\<close> renders for a payload: the text is the one string of the \<^verbatim>\<open>pre\<close>
  element, and the elements of the block are the same whatever the text is.
\<close>

lemma add_block_renders:
  assumes "extract_node_text (Some node) = Inr (Some d, Some k)"
  shows "\<exists>note. add_block title (Some node) =
           Inr (block_of (if title = str ''Request'' then ''req'' else ''resp'') title
                  (if k = KText then None else Some (kind_name k)) d # note)"
  using assms
  by (simp add: add_block_def bind_exn_def Let_def block_of_def new_tag_def set_string_def
      append_child_def)

text \<open>
  A response inside the request it is paired with: once both are in the wrapper, the
  request no longer holds the response.
\<close>

lemma moved_response_leaves_its_request:
  "wrapper_of [[0], [0, 1]]
     ([0], Tag (str ''request'') [] [NavigableString (str ''a''), Tag (str ''response'') [] []])
     ([0, 1], Tag (str ''response'') [] [])
   = Tag (str ''item'') [] [Tag (str ''request'') [] [NavigableString (str ''a'')],
                            Tag (str ''response'') [] []]"
  by (simp add: wrapper_of_def)

lemma build_container_returns: "\<exists>es. build_container doc = Inr es"
proof -
  obtain es1 where "add_entries 1 (extract_items doc) = Inr es1"
    using add_entries_spec by blast
  moreover obtain es2 where "pairs_loop [] 1 (zip (find_all_at (str ''request'') doc)
      (find_all_at (str ''response'') doc)) = Inr es2"
    using pairs_loop_spec by blast
  ultimately show ?thesis
    by (simp add: build_container_def Let_def)
qed

lemmas tree_defs = find_all_def find_all_at_def find_tag_def named_def strings_def get_def
  new_tag_def set_string_def append_child_def

section \<open>The wrapper of a pair\<close>

text \<open>
  An element under which nothing has been moved holds what it held in the parsed document;
  an element that \<^verbatim>\<open>find_all\<close> returns has the name that was searched; \<^verbatim>\<open>find\<close>
  returns the first child when it has the name.
\<close>

lemma below_child: "below (p @ [i]) p"
  by (simp add: below_def)

lemma below_parent: "below q (p @ [i]) \<Longrightarrow> below q p"
proof -
  assume a: "below q (p @ [i])"
  then have l: "length p < length q" by (simp add: below_def)
  from a have "take (length p) (take (Suc (length p)) q) = take (length p) (p @ [i])"
    by (simp add: below_def)
  then have "take (length p) q = p" by simp
  with l show ?thesis by (simp add: below_def)
qed

lemma prune_nothing_below:
  "(\<forall>q\<in>set moved. \<not> below q p) \<longrightarrow> prune moved p t = t"
  "(\<forall>q\<in>set moved. \<not> below q p) \<longrightarrow> prune_list moved p i cs = cs"
proof (induction moved p t and moved p i cs rule: prune_prune_list.induct)
  case (1 moved p s)
  show ?case by simp
next
  case (2 moved p s)
  show ?case by simp
next
  case (3 moved p n a cs)
  then show ?case by simp
next
  case (4 moved p i)
  show ?case by simp
next
  case (5 moved p i c cs)
  show ?case
  proof
    assume nb: "\<forall>q\<in>set moved. \<not> below q p"
    with below_child [of p i] have notin: "p @ [i] \<notin> set moved" by blast
    from nb below_parent have "\<forall>q\<in>set moved. \<not> below q (p @ [i])" by blast
    with "5.IH"(1) notin have c: "prune moved (p @ [i]) c = c" by blast
    from "5.IH"(2) nb have "prune_list moved p (Suc i) cs = cs" by blast
    with c notin show "prune_list moved p i (c # cs) = c # cs" by simp
  qed
qed

lemma find_all_at_named:
  assumes "i < length (find_all_at name doc)"
  shows "\<exists>p a cs. find_all_at name doc ! i = (p, Tag name a cs)"
proof -
  from assms have "find_all_at name doc ! i \<in> set (find_all_at name doc)"
    by (rule nth_mem)
  then have "named name (snd (find_all_at name doc ! i))"
    by (simp add: find_all_at_def)
  then show ?thesis
    by (cases "find_all_at name doc ! i"; cases "snd (find_all_at name doc ! i)")
      (auto simp add: named_def)
qed

lemma find_tag_first_child:
  "find_tag name (Tag n0 a0 (Tag name a cs # rest)) = Some (Tag name a cs)"
  by (simp add: find_tag_def find_all_def find_all_at_def named_def)

text \<open>A comment that is the only child of a header element is what \<^verbatim>\<open>.string\<close> returns.\<close>

lemma comment_only_child_is_printed:
  "field_line (Tag (str ''item'') [] [Tag (str ''status'') [] [Comment (str ''x'')]])
     ''status'' ''status'' ''Status: ''
   = [Tag (str ''div'') [(str ''class'', str ''status'')] [NavigableString (str ''Status: x'')]]"
  by (simp add: field_line_def find_tag_def find_all_def find_all_at_def named_def new_tag_def
      set_string_def)

section \<open>Which elements become entries\<close>

text \<open>
  C5: the items are the \<^verbatim>\<open>item\<close> elements when there is one, and otherwise all
  \<^verbatim>\<open>attackitem\<close> elements, then all \<^verbatim>\<open>row\<close> elements, then all \<^verbatim>\<open>requestitem\<close>
  elements; when there are items the report holds one entry for each, in that order and
  numbered from 1, and nothing else.
\<close>

theorem C5_items_precedence:
  "extract_items doc =
     (if find_all (str ''item'') doc \<noteq> [] then find_all (str ''item'') doc
      else find_all (str ''attackitem'') doc @ find_all (str ''row'') doc
           @ find_all (str ''requestitem'') doc)
   \<and> (extract_items doc \<noteq> [] \<longrightarrow>
        (\<exists>es. build_container doc = Inr es \<and> length es = length (extract_items doc)
           \<and> (\<forall>i<length es. add_entry (Suc i) (extract_items doc ! i) = Inr (es ! i))))"
proof (intro conjI impI)
  show "extract_items doc =
     (if find_all (str ''item'') doc \<noteq> [] then find_all (str ''item'') doc
      else find_all (str ''attackitem'') doc @ find_all (str ''row'') doc
           @ find_all (str ''requestitem'') doc)"
    by (simp add: extract_items_def Let_def)
next
  assume ne: "extract_items doc \<noteq> []"
  from add_entries_spec [of 1 "extract_items doc"] obtain es where
    es: "add_entries 1 (extract_items doc) = Inr es" "length es = length (extract_items doc)"
    "\<forall>i<length (extract_items doc). add_entry (1 + i) (extract_items doc ! i) = Inr (es ! i)"
    by blast
  from ne es(1) have "build_container doc = Inr es"
    by (simp add: build_container_def Let_def)
  with es(2,3) show "\<exists>es. build_container doc = Inr es \<and> length es = length (extract_items doc)
           \<and> (\<forall>i<length es. add_entry (Suc i) (extract_items doc ! i) = Inr (es ! i))"
    by auto
qed

lemma example_items: "find_all (str ''item'') example_items_doc =
    [Tag (str ''item'') []
             [Tag (str ''status'') [] [NavigableString (str ''200'')],
              Tag (str ''request'') [(str ''encoding'', str ''base64'')]
                [NavigableString (str ''aGVsbG8='')]]]"
  by (simp add: example_items_doc_def tree_defs)

theorem C5_items_precedence_witness:
  "find_all (str ''attackitem'') example_items_doc \<noteq> []
   \<and> extract_items example_items_doc = find_all (str ''item'') example_items_doc
   \<and> (\<exists>es. build_container example_items_doc = Inr es \<and> length es = 1)"
proof -
  have a: "find_all (str ''attackitem'') example_items_doc \<noteq> []"
    by (simp add: example_items_doc_def tree_defs)
  from C5_items_precedence [of example_items_doc] a example_items show ?thesis
    by auto
qed


text \<open>
  C6: when there are no items, the loop over the pairs builds exactly as many entries as
  the shorter of the two sequences of \<^verbatim>\<open>request\<close> and \<^verbatim>\<open>response\<close> elements has
  members. The entry numbered \<open>i + 1\<close> is built from a wrapper \<^verbatim>\<open>item\<close> whose two
  children are the request at index \<open>i\<close> and the response at index \<open>i\<close> of their
  sequences (in document order), each with its name and attributes and with its contents
  less the elements moved so far, which are its contents in the document when none of
  those lay under it; the request of the pair is the one that \<^verbatim>\<open>find\<close> returns in the
  wrapper. These entries are the report; with no pair the report is the placeholder.
\<close>

theorem C6_pairs_fallback:
  assumes "extract_items doc = []"
  shows "\<exists>es. length es = min (length (find_all (str ''request'') doc))
                              (length (find_all (str ''response'') doc))
     \<and> (\<forall>i<length es. \<exists>pr ra rc ps sa sc m wrapper.
           find_all_at (str ''request'') doc ! i = (pr, Tag (str ''request'') ra rc)
         \<and> find_all_at (str ''response'') doc ! i = (ps, Tag (str ''response'') sa sc)
         \<and> m = moved_after []
                 (zip (find_all_at (str ''request'') doc) (find_all_at (str ''response'') doc)) i
         \<and> wrapper = Tag (str ''item'') []
                       [Tag (str ''request'') ra (prune_list m pr 0 rc),
                        Tag (str ''response'') sa (prune_list m ps 0 sc)]
         \<and> add_entry (Suc i) wrapper = Inr (es ! i)
         \<and> find_tag (str ''request'') wrapper = Some (Tag (str ''request'') ra (prune_list m pr 0 rc))
         \<and> ((\<forall>q\<in>set m. \<not> below q pr) \<longrightarrow> prune_list m pr 0 rc = rc)
         \<and> ((\<forall>q\<in>set m. \<not> below q ps) \<longrightarrow> prune_list m ps 0 sc = sc))
     \<and> build_container doc = Inr (if es = [] then [no_items_msg] else es)"
proof -
  let ?reqs = "find_all_at (str ''request'') doc"
  let ?resps = "find_all_at (str ''response'') doc"
  let ?pairs = "zip ?reqs ?resps"
  from pairs_loop_spec [of "[]" 1 ?pairs] obtain es where
    es: "pairs_loop [] 1 ?pairs = Inr es" "length es = length ?pairs"
    "\<forall>i<length ?pairs.
        add_entry (1 + i) (wrapper_of (moved_after [] ?pairs i) (fst (?pairs ! i)) (snd (?pairs ! i)))
        = Inr (es ! i)"
    by blast
  have len: "length es = min (length (find_all (str ''request'') doc))
                            (length (find_all (str ''response'') doc))"
    using es(2) by (simp add: find_all_def)
  have nth: "\<forall>i<length es. \<exists>pr ra rc ps sa sc m wrapper.
           ?reqs ! i = (pr, Tag (str ''request'') ra rc)
         \<and> ?resps ! i = (ps, Tag (str ''response'') sa sc)
         \<and> m = moved_after [] ?pairs i
         \<and> wrapper = Tag (str ''item'') []
                       [Tag (str ''request'') ra (prune_list m pr 0 rc),
                        Tag (str ''response'') sa (prune_list m ps 0 sc)]
         \<and> add_entry (Suc i) wrapper = Inr (es ! i)
         \<and> find_tag (str ''request'') wrapper = Some (Tag (str ''request'') ra (prune_list m pr 0 rc))
         \<and> ((\<forall>q\<in>set m. \<not> below q pr) \<longrightarrow> prune_list m pr 0 rc = rc)
         \<and> ((\<forall>q\<in>set m. \<not> below q ps) \<longrightarrow> prune_list m ps 0 sc = sc)"
  proof (intro allI impI)
    fix i
    assume i: "i < length es"
    with es(2) have i_req: "i < length ?reqs" and i_resp: "i < length ?resps"
      by simp_all
    from find_all_at_named [OF i_req] obtain pr ra rc where
      r: "?reqs ! i = (pr, Tag (str ''request'') ra rc)" by blast
    from find_all_at_named [OF i_resp] obtain ps sa sc where
      s: "?resps ! i = (ps, Tag (str ''response'') sa sc)" by blast
    let ?m = "moved_after [] ?pairs i"
    let ?w = "Tag (str ''item'') []
                [Tag (str ''request'') ra (prune_list ?m pr 0 rc),
                 Tag (str ''response'') sa (prune_list ?m ps 0 sc)]"
    from i es(2,3) have "add_entry (Suc i) (wrapper_of ?m (?reqs ! i) (?resps ! i)) = Inr (es ! i)"
      by simp
    with r s have e: "add_entry (Suc i) ?w = Inr (es ! i)"
      by (simp add: wrapper_of_def)
    have f: "find_tag (str ''request'') ?w = Some (Tag (str ''request'') ra (prune_list ?m pr 0 rc))"
      by (rule find_tag_first_child)
    from r s e f prune_nothing_below(2) [of ?m pr 0 rc] prune_nothing_below(2) [of ?m ps 0 sc]
    show "\<exists>pr ra rc ps sa sc m wrapper.
           ?reqs ! i = (pr, Tag (str ''request'') ra rc)
         \<and> ?resps ! i = (ps, Tag (str ''response'') sa sc)
         \<and> m = moved_after [] ?pairs i
         \<and> wrapper = Tag (str ''item'') []
                       [Tag (str ''request'') ra (prune_list m pr 0 rc),
                        Tag (str ''response'') sa (prune_list m ps 0 sc)]
         \<and> add_entry (Suc i) wrapper = Inr (es ! i)
         \<and> find_tag (str ''request'') wrapper = Some (Tag (str ''request'') ra (prune_list m pr 0 rc))
         \<and> ((\<forall>q\<in>set m. \<not> below q pr) \<longrightarrow> prune_list m pr 0 rc = rc)
         \<and> ((\<forall>q\<in>set m. \<not> below q ps) \<longrightarrow> prune_list m ps 0 sc = sc)"
      by blast
  qed
  have "build_container doc = Inr (if es = [] then [no_items_msg] else es)"
  proof (cases "?pairs = []")
    case True
    with es(2) have "es = []" by auto
    with True assms show ?thesis
      by (simp add: build_container_def Let_def)
  next
    case False
    with es(2) have "es \<noteq> []" by (metis length_0_conv)
    with False assms es(1) show ?thesis
      by (simp add: build_container_def Let_def)
  qed
  with len nth show ?thesis by blast
qed

text \<open>
  The report of the document with three requests and two responses, and of the document
  where the first response lies inside the first request.
\<close>

lemma example_pairs_report:
  "build_container example_pairs_doc =
     Inr [entry_of (str ''Item #1'')
            [block_of ''req'' (str ''Request'') None (str ''GET /a''),
             block_of ''resp'' (str ''Response'') None (str ''200 OK'')],
          entry_of (str ''Item #2'')
            [block_of ''req'' (str ''Request'') None (str ''GET /b''),
             block_of ''resp'' (str ''Response'') None (str ''404'')]]"
  by (simp add: build_container_def extract_items_def example_pairs_doc_def tree_defs Let_def
      wrapper_of_def add_entry_def add_block_def extract_node_text_def field_line_def bind_exn_def
      is_likely_base64_def strip_def isspace_def entry_of_def block_of_def)

lemma example_nested_report:
  "build_container example_nested_doc =
     Inr [entry_of (str ''Item #1'')
            [block_of ''req'' (str ''Request'') None (str ''GET /a''),
             block_of ''resp'' (str ''Response'') None (str ''200 OK'')],
          entry_of (str ''Item #2'')
            [block_of ''req'' (str ''Request'') None (str ''GET /b''),
             block_of ''resp'' (str ''Response'') None (str ''404'')]]"
  by (simp add: build_container_def extract_items_def example_nested_doc_def tree_defs Let_def
      wrapper_of_def add_entry_def add_block_def extract_node_text_def field_line_def bind_exn_def
      is_likely_base64_def strip_def isspace_def entry_of_def block_of_def)

theorem C6_pairs_fallback_witness:
  "extract_items example_pairs_doc = []
   \<and> length (find_all (str ''request'') example_pairs_doc) = 3
   \<and> length (find_all (str ''response'') example_pairs_doc) = 2
   \<and> build_container example_pairs_doc =
       Inr [entry_of (str ''Item #1'')
              [block_of ''req'' (str ''Request'') None (str ''GET /a''),
               block_of ''resp'' (str ''Response'') None (str ''200 OK'')],
            entry_of (str ''Item #2'')
              [block_of ''req'' (str ''Request'') None (str ''GET /b''),
               block_of ''resp'' (str ''Response'') None (str ''404'')]]
   \<and> build_container example_nested_doc =
       Inr [entry_of (str ''Item #1'')
              [block_of ''req'' (str ''Request'') None (str ''GET /a''),
               block_of ''resp'' (str ''Response'') None (str ''200 OK'')],
            entry_of (str ''Item #2'')
              [block_of ''req'' (str ''Request'') None (str ''GET /b''),
               block_of ''resp'' (str ''Response'') None (str ''404'')]]"
proof -
  have e: "extract_items example_pairs_doc = []"
    by (simp add: extract_items_def example_pairs_doc_def tree_defs)
  have rq: "length (find_all (str ''request'') example_pairs_doc) = 3"
    by (simp add: example_pairs_doc_def tree_defs)
  have rs: "length (find_all (str ''response'') example_pairs_doc) = 2"
    by (simp add: example_pairs_doc_def tree_defs)
  from C6_pairs_fallback [OF e] obtain es where
    "length es = min (length (find_all (str ''request'') example_pairs_doc))
                     (length (find_all (str ''response'') example_pairs_doc))"
    "build_container example_pairs_doc = Inr (if es = [] then [no_items_msg] else es)"
    by blast
  with rq rs have "\<exists>es. build_container example_pairs_doc = Inr es \<and> length es = 2"
    by auto
  with e rq rs example_pairs_report example_nested_report show ?thesis
    by blast
qed

section \<open>Payloads that the heuristic misjudges, and empty payloads\<close>

text \<open>
  C9: the string \<^verbatim>\<open>AAAA=AAA\<close> in a node that declares no encoding is classified as
  Base64, strict decoding of it fails, \<open>extract_node_text\<close> returns it unchanged with
  kind \<^verbatim>\<open>raw\<close>, and the block rendered for the node carries the badge \<^verbatim>\<open>raw\<close>.
\<close>

theorem C9_undeclared_payload_marked_raw:
  "get raw_node (str ''encoding'') = None
   \<and> concat (strings raw_node) = str ''AAAA=AAA''
   \<and> is_likely_base64 (str ''AAAA=AAA'')
   \<and> b64decode (sub_ws (str ''AAAA=AAA'')) = Inl BinasciiError
   \<and> extract_node_text (Some raw_node) = Inr (Some (str ''AAAA=AAA''), Some KRaw)
   \<and> add_block (str ''Request'') (Some raw_node)
       = Inr [block_of ''req'' (str ''Request'') (Some (str ''raw'')) (str ''AAAA=AAA'')]"
proof -
  have g: "get raw_node (str ''encoding'') = None"
    by (simp add: raw_node_def get_def)
  have s: "concat (strings raw_node) = str ''AAAA=AAA''"
    by (simp add: raw_node_def strings_def)
  have l: "is_likely_base64 (str ''AAAA=AAA'')"
    by (simp add: is_likely_base64_def strip_def isspace_def is_b64char_def fullmatch_b64_ws_def
        remove_char_def findall_b64_def)
  have d: "b64decode (sub_ws (str ''AAAA=AAA'')) = Inl BinasciiError"
    by (simp add: sub_ws_def isspace_def b64decode_def bytes_from_decode_data_def bind_exn_def
        a2b_base64_def table_a2b_base64_def)
  have x: "extract_node_text (Some raw_node) = Inr (Some (str ''AAAA=AAA''), Some KRaw)"
    unfolding extract_node_text_def using g s l d
    by (simp add: Let_def try_decode_base64_eq bind_exn_def)
  have b: "add_block (str ''Request'') (Some raw_node)
       = Inr [block_of ''req'' (str ''Request'') (Some (str ''raw'')) (str ''AAAA=AAA'')]"
    unfolding add_block_def using g x
    by (simp add: bind_exn_def Let_def block_of_def new_tag_def set_string_def append_child_def)
  from g s l d x b show ?thesis by blast
qed


text \<open>
  C10: decoding the empty string or a string of whitespace only gives the empty text
  with kind \<^verbatim>\<open>text\<close>; a node that declares the encoding \<^verbatim>\<open>base64\<close> (in any case
  of the letters) and whose text is empty or whitespace only is rendered as a block with
  an empty \<^verbatim>\<open>pre\<close> element and no badge, followed by the note on its encoding.
\<close>

theorem C10_whitespace_payload_is_empty_text:
  "(list_all isspace s \<longrightarrow> try_decode_base64 s = Inr ([], KText))
   \<and> (get node (str ''encoding'') = Some e \<and> lower e = str ''base64''
        \<and> list_all isspace (concat (strings node)) \<longrightarrow>
      add_block title (Some node) =
        Inr [block_of (if title = str ''Request'' then ''req'' else ''resp'') title None [],
             Tag (str ''div'') [(str ''class'', str ''note'')]
               [NavigableString (str ''Original node encoding attribute: '' @ e)]])"
proof (intro conjI impI)
  assume "list_all isspace s"
  then show "try_decode_base64 s = Inr ([], KText)"
    by (rule try_decode_base64_whitespace)
next
  assume a: "get node (str ''encoding'') = Some e \<and> lower e = str ''base64''
        \<and> list_all isspace (concat (strings node))"
  then have ne: "e \<noteq> []"
    by (auto simp add: lower_def)
  from a have x: "extract_node_text (Some node) = Inr (Some [], Some KText)"
    unfolding extract_node_text_def
    by (simp add: ne Let_def try_decode_base64_whitespace bind_exn_def)
  show "add_block title (Some node) =
        Inr [block_of (if title = str ''Request'' then ''req'' else ''resp'') title None [],
             Tag (str ''div'') [(str ''class'', str ''note'')]
               [NavigableString (str ''Original node encoding attribute: '' @ e)]]"
    unfolding add_block_def using a x ne
    by (simp add: bind_exn_def Let_def block_of_def new_tag_def set_string_def append_child_def)
qed

theorem C10_whitespace_payload_is_empty_text_witness:
  "list_all isspace [32, 10, 13, 9]
   \<and> try_decode_base64 [32, 10, 13, 9] = Inr ([], KText)
   \<and> get empty_base64_node (str ''encoding'') = Some (str ''base64'')
   \<and> add_block (str ''Response'') (Some empty_base64_node) =
        Inr [block_of ''resp'' (str ''Response'') None [],
             Tag (str ''div'') [(str ''class'', str ''note'')]
               [NavigableString (str ''Original node encoding attribute: base64'')]]"
proof -
  have w: "list_all isspace [32, 10, 13, 9]"
    by (simp add: isspace_def)
  have g: "get empty_base64_node (str ''encoding'') = Some (str ''base64'')"
    by (simp add: empty_base64_node_def get_def)
  have l: "lower (str ''base64'') = str ''base64''"
    by (simp add: lower_def)
  have s: "list_all isspace (concat (strings empty_base64_node))"
    by (simp add: empty_base64_node_def strings_def)
  from C10_whitespace_payload_is_empty_text
    [of "[32, 10, 13, 9]" empty_base64_node "str ''base64''" "str ''Response''"] w g l s
  show ?thesis by simp
qed

section \<open>The command line\<close>

text \<open>
  C4, as the specification states it, fails: the usage message is printed with
  \<^verbatim>\<open>print\<close>, which writes to standard output. Run with no argument, the script
  leaves standard error empty.
\<close>

theorem C4_usage_on_stderr_counterexample:
  "length [str ''parse_xml.py''] \<noteq> 3
   \<and> stderr (fst (script example_parser example_to_str [str ''parse_xml.py''] example_world)) = []
   \<and> stdout (fst (script example_parser example_to_str [str ''parse_xml.py''] example_world))
       = [usage]"
  by (simp add: script_def example_world_def)

text \<open>
  C4, amended: with an argument count other than two the script prints the usage
  message on standard output and exits with code 1, having opened no file and written
  nothing on standard error; with two arguments, a run that reaches its end exits with
  code 0, has written the report to the output path and has printed
  \<^verbatim>\<open>Wrote\<close> and that path on standard output.
\<close>

theorem C4_usage_on_stdout:
  "(length argv \<noteq> 3 \<longrightarrow>
      script parse to_str argv w = (w\<lparr>stdout := stdout w @ [usage]\<rparr>, Some (SystemExit 1))
      \<and> exit_code (snd (script parse to_str argv w)) = 1
      \<and> stderr (fst (script parse to_str argv w)) = stderr w
      \<and> accesses (fst (script parse to_str argv w)) = accesses w)
   \<and> (length argv = 3 \<and> snd (script parse to_str argv w) = None \<longrightarrow>
      exit_code (snd (script parse to_str argv w)) = 0
      \<and> stdout (fst (script parse to_str argv w)) = stdout w @ [str ''Wrote '' @ argv ! 2]
      \<and> stderr (fst (script parse to_str argv w)) = stderr w
      \<and> (\<exists>entries. files (fst (script parse to_str argv w)) (argv ! 2) = Some (to_str entries)))"
proof (intro conjI impI)
  assume "length argv = 3 \<and> snd (script parse to_str argv w) = None"
  then show "exit_code (snd (script parse to_str argv w)) = 0"
    by simp
next
  assume "length argv = 3 \<and> snd (script parse to_str argv w) = None"
  then show "stdout (fst (script parse to_str argv w)) = stdout w @ [str ''Wrote '' @ argv ! 2]"
    by (auto simp add: script_def Let_def uncaught_def split: option.splits sum.splits if_splits)
next
  assume "length argv = 3 \<and> snd (script parse to_str argv w) = None"
  then show "stderr (fst (script parse to_str argv w)) = stderr w"
    by (auto simp add: script_def Let_def uncaught_def split: option.splits sum.splits if_splits)
next
  assume "length argv = 3 \<and> snd (script parse to_str argv w) = None"
  then show "\<exists>entries. files (fst (script parse to_str argv w)) (argv ! 2) = Some (to_str entries)"
    by (auto simp add: script_def Let_def uncaught_def split: option.splits sum.splits if_splits)
qed (simp_all add: script_def)

theorem C4_usage_on_stdout_witness:
  "script example_parser example_to_str [str ''parse_xml.py''] example_world
     = (example_world\<lparr>stdout := [usage]\<rparr>, Some (SystemExit 1))
   \<and> snd (script example_parser example_to_str
            [str ''parse_xml.py'', str ''in.xml'', str ''out.html''] example_world) = None
   \<and> stdout (fst (script example_parser example_to_str
            [str ''parse_xml.py'', str ''in.xml'', str ''out.html''] example_world))
       = [str ''Wrote out.html'']"
proof -
  let ?argv = "[str ''parse_xml.py'', str ''in.xml'', str ''out.html'']"
  obtain es where es: "build_container example_items_doc = Inr es"
    using build_container_returns by blast
  have ok: "snd (script example_parser example_to_str ?argv example_world) = None"
    by (simp add: script_def Let_def example_world_def example_parser_def bind_exn_def es)
  have "length [str ''parse_xml.py''] \<noteq> 3" and "length ?argv = 3"
    by simp_all
  with ok C4_usage_on_stdout [of "[str ''parse_xml.py'']" example_parser example_to_str example_world]
    C4_usage_on_stdout [of ?argv example_parser example_to_str example_world]
  show ?thesis
    by (simp add: example_world_def Let_def)
qed

end
